theory Spec2Isabelle
  imports Complex_Main "HOL-Library.Sublist"
begin

section \<open>JavaScript values used by the services\<close>

text \<open>
  A JavaScript string is modelled as a \<open>string\<close>: one \<open>char\<close> stands for one code
  unit, so \<open>length\<close> is the source's \<open>.length\<close>. A JavaScript number that counts or
  indexes is an \<open>int\<close>; a distance score is a \<open>real\<close>. A value that may be
  \<open>undefined\<close> or \<open>null\<close> is an \<open>option\<close>.
\<close>

abbreviation NL :: char where
  "NL \<equiv> CHR 0x0A"

text \<open>\<open>Array.prototype.slice(start)\<close>: a negative start counts from the end, and both
  ends are clamped to the array.\<close>

definition slice_from :: "int \<Rightarrow> 'a list \<Rightarrow> 'a list" where
  "slice_from start xs =
     (let len = int (length xs);
          k = (if start < 0 then max (len + start) 0 else min start len)
      in drop (nat k) xs)"

text \<open>The errors the services raise. \<open>ClientError\<close> is whatever a rejected command of
  the cache client throws; \<open>TypeError\<close> is a property read on \<open>undefined\<close>.\<close>

datatype error =
    SessionIdRequired
  | ClientError
  | TypeError
  | SearchFailed
  | GenerationFailed

section \<open>Data model\<close>

text \<open>A conversation turn as the prompt sees it, and the message object the session
  service builds from it (\<open>role\<close>, \<open>content\<close>, \<open>metadata\<close>, \<open>id\<close>); the cache service
  adds \<open>timestamp\<close>. The metadata is opaque.\<close>

record turn =
  role :: string
  content :: string

record 'm message = turn +
  metadata :: 'm
  msg_id :: string
  timestamp :: "string option"

text \<open>An object with optional \<open>title\<close>, \<open>source\<close> and \<open>url\<close>: the metadata of a
  retrieved passage, and the citation \<open>extractSources\<close> fills in line by line.\<close>

record source_fields =
  title :: "string option"
  source :: "string option"
  url :: "string option"

text \<open>The raw result of a vector query: one inner list per query embedding.\<close>

record search_results =
  documents :: "string list list option"
  metadatas :: "source_fields option list list option"
  distances :: "real option list list option"

section \<open>The cache service (redis.service.js)\<close>

text \<open>
  The client is the external key-value store. Its two key namespaces, \<open>session:<id>\<close>
  and \<open>query:<hash>\<close>, never overlap and are kept as two maps, each value stored with
  the expiry it was written with; JSON serialisation is taken to round-trip. A command
  sent to a client that is not \<open>alive\<close> throws.
\<close>

record 'm redis_client =
  alive :: bool
  sessions :: "string \<rightharpoonup> (int \<times> 'm message list)"
  queries :: "string \<rightharpoonup> (int \<times> search_results)"

record 'm RedisService =
  client :: "'m redis_client"
  isConnected :: bool

definition client_get_session :: "'m redis_client \<Rightarrow> string \<Rightarrow> error + 'm message list option" where
  "client_get_session c sessionId =
     (if alive c then Inr (map_option snd (sessions c sessionId)) else Inl ClientError)"

definition client_setEx_session ::
  "'m redis_client \<Rightarrow> string \<Rightarrow> int \<Rightarrow> 'm message list \<Rightarrow> error + 'm redis_client" where
  "client_setEx_session c sessionId ttl v =
     (if alive c then Inr (c\<lparr>sessions := (sessions c)(sessionId \<mapsto> (ttl, v))\<rparr>)
      else Inl ClientError)"

definition client_get_query :: "'m redis_client \<Rightarrow> string \<Rightarrow> error + search_results option" where
  "client_get_query c queryHash =
     (if alive c then Inr (map_option snd (queries c queryHash)) else Inl ClientError)"

definition client_setEx_query ::
  "'m redis_client \<Rightarrow> string \<Rightarrow> int \<Rightarrow> search_results \<Rightarrow> error + 'm redis_client" where
  "client_setEx_query c queryHash ttl v =
     (if alive c then Inr (c\<lparr>queries := (queries c)(queryHash \<mapsto> (ttl, v))\<rparr>)
      else Inl ClientError)"

text \<open>\<open>getSessionHistory\<close> never throws: not connected, a failing read and a missing
  key all give the empty history.\<close>

definition getSessionHistory :: "'m RedisService \<Rightarrow> string \<Rightarrow> 'm message list" where
  "getSessionHistory s sessionId =
     (if \<not> isConnected s then []
      else case client_get_session (client s) sessionId of
             Inl e \<Rightarrow> []
           | Inr None \<Rightarrow> []
           | Inr (Some history) \<Rightarrow> history)"

text \<open>\<open>addToSessionHistory\<close>: \<open>now\<close> is the clock reading \<open>new Date().toISOString()\<close>
  and \<open>ttl\<close> is \<open>parseInt(process.env.SESSION_TTL) || 86400\<close>. The result is the
  returned array, or the rethrown error, with the service after the call.\<close>

definition addToSessionHistory ::
  "int \<Rightarrow> 'm RedisService \<Rightarrow> string \<Rightarrow> 'm message \<Rightarrow> string
     \<Rightarrow> (error + 'm message list) \<times> 'm RedisService" where
  "addToSessionHistory ttl s sessionId message now =
     (if \<not> isConnected s then (Inr [], s)
      else
        let history = getSessionHistory s sessionId;
            messageWithTimestamp = message\<lparr>timestamp := Some now\<rparr>;
            history = history @ [messageWithTimestamp];
            trimmedHistory = slice_from (- 50) history
        in case client_setEx_session (client s) sessionId ttl trimmedHistory of
             Inl e \<Rightarrow> (Inl e, s)
           | Inr c \<Rightarrow> (Inr trimmedHistory, s\<lparr>client := c\<rparr>))"

text \<open>The log kept under a session's key, empty when the key is absent.\<close>

definition stored_log :: "'m RedisService \<Rightarrow> string \<Rightarrow> 'm message list" where
  "stored_log s sessionId =
     (case sessions (client s) sessionId of None \<Rightarrow> [] | Some (ttl, h) \<Rightarrow> h)"






section \<open>The session service (session.service.js)\<close>

text \<open>\<open>!sessionId\<close> holds of the empty string (and of an absent id, modelled by it).\<close>

definition getHistory :: "'m RedisService \<Rightarrow> string \<Rightarrow> error + 'm message list" where
  "getHistory s sessionId =
     (if sessionId = [] then Inl SessionIdRequired
      else Inr (getSessionHistory s sessionId))"

text \<open>\<open>addMessage\<close>: \<open>fresh\<close> is the identifier \<open>uuidv4()\<close> draws.\<close>

definition addMessage ::
  "int \<Rightarrow> 'm RedisService \<Rightarrow> string \<Rightarrow> string \<Rightarrow> string \<Rightarrow> 'm \<Rightarrow> string \<Rightarrow> string
     \<Rightarrow> (error + 'm message list) \<times> 'm RedisService" where
  "addMessage ttl s sessionId r c meta fresh now =
     (if sessionId = [] then (Inl SessionIdRequired, s)
      else
        let message = \<lparr>role = r, content = c, metadata = meta, msg_id = fresh,
                        timestamp = None\<rparr>
        in addToSessionHistory ttl s sessionId message now)"

definition getContextForRAG :: "'m RedisService \<Rightarrow> string \<Rightarrow> int \<Rightarrow> error + turn list" where
  "getContextForRAG s sessionId maxMessages =
     (case getHistory s sessionId of
        Inl e \<Rightarrow> Inl e
      | Inr history \<Rightarrow>
          let recentMessages = slice_from (- maxMessages) history
          in Inr (map (\<lambda>msg. \<lparr>role = role msg, content = content msg\<rparr>) recentMessages))"

section \<open>Retrieval and generation (chatbot.service.js)\<close>

subsection \<open>String operations\<close>

text \<open>The white space \<open>String.prototype.trim\<close> strips, among the code units below
  256: tab, line feed, vertical tab, form feed, carriage return, space and no-break
  space.\<close>

definition is_space :: "char \<Rightarrow> bool" where
  "is_space c = (c \<in> {CHR 0x09, CHR 0x0A, CHR 0x0B, CHR 0x0C, CHR 0x0D, CHR 0x20, CHR 0xA0})"

definition trim :: "string \<Rightarrow> string" where
  "trim s = rev (dropWhile is_space (rev (dropWhile is_space s)))"

definition startsWith :: "string \<Rightarrow> string \<Rightarrow> bool" where
  "startsWith line p = (take (length p) line = p)"

text \<open>\<open>s.replace(pat, rep)\<close> with a string pattern: the first occurrence only.\<close>

fun replace :: "string \<Rightarrow> string \<Rightarrow> string \<Rightarrow> string" where
  "replace [] pat rep = (if pat = [] then rep else [])"
| "replace (c # cs) pat rep =
     (if startsWith (c # cs) pat then rep @ drop (length pat) (c # cs)
      else c # replace cs pat rep)"

text \<open>\<open>s.split(sep)\<close> for a separator of one code unit: a code unit that is not the
  separator joins the first piece of what follows; the result is never empty.\<close>

fun split :: "string \<Rightarrow> char \<Rightarrow> string list" where
  "split [] sep = [[]]"
| "split (c # cs) sep =
     (if c = sep then [] # split cs sep
      else (case split cs sep of
              [] \<Rightarrow> [[c]]
            | piece # pieces \<Rightarrow> (c # piece) # pieces))"

text \<open>\<open>xs.join(sep)\<close>.\<close>

fun join :: "string list \<Rightarrow> string \<Rightarrow> string" where
  "join [] sep = []"
| "join [x] sep = x"
| "join (x # y # ys) sep = x @ sep @ join (y # ys) sep"

text \<open>\<open>v || d\<close> on a string that may be absent: absent and empty are both falsy.\<close>

definition or_default :: "string option \<Rightarrow> string \<Rightarrow> string" where
  "or_default v d = (case v of None \<Rightarrow> d | Some x \<Rightarrow> if x = [] then d else x)"

definition truthy :: "string option \<Rightarrow> bool" where
  "truthy v = (case v of None \<Rightarrow> False | Some x \<Rightarrow> x \<noteq> [])"

subsection \<open>buildContext\<close>

text \<open>\<open>xs?.[0] || []\<close>: the first inner list, empty when there is none.\<close>

definition first_or_empty :: "'a list list option \<Rightarrow> 'a list" where
  "first_or_empty xs = (case xs of None \<Rightarrow> [] | Some [] \<Rightarrow> [] | Some (x # rest) \<Rightarrow> x)"

text \<open>\<open>xs[i]\<close> on an array of values that may be \<open>null\<close>: past the end it is
  \<open>undefined\<close>.\<close>

definition elem_at :: "'a option list \<Rightarrow> nat \<Rightarrow> 'a option" where
  "elem_at xs i = (if i < length xs then xs ! i else None)"

text \<open>What one round of the loop reads: \<open>docs[i]\<close>, \<open>metadatas[i]\<close> and
  \<open>distances[i]\<close>, for \<open>i\<close> from \<open>0\<close> up to \<open>docs.length\<close>.\<close>

type_synonym passage = "string \<times> source_fields option \<times> real option"

definition passages :: "search_results \<Rightarrow> passage list" where
  "passages searchResults =
     (let docs = first_or_empty (documents searchResults);
          metadatas = first_or_empty (metadatas searchResults);
          distances = first_or_empty (distances searchResults)
      in map (\<lambda>i. (docs ! i, elem_at metadatas i, elem_at distances i)) [0..<length docs])"

text \<open>\<open>distance > 0.8\<close>: false of an absent distance.\<close>

definition too_far :: "real option \<Rightarrow> bool" where
  "too_far distance = (case distance of None \<Rightarrow> False | Some d \<Rightarrow> d > 0.8)"

text \<open>The block of one passage, as the template literal writes it.\<close>

definition docContext :: "source_fields \<Rightarrow> string \<Rightarrow> string" where
  "docContext meta doc =
     [NL] @ ''Title: '' @ or_default (title meta) ''Unknown''
     @ [NL] @ ''Source: '' @ or_default (source meta) ''Unknown''
     @ [NL] @ ''URL: '' @ or_default (url meta) ''N/A''
     @ [NL] @ ''Content: '' @ doc
     @ [NL] @ ''---''"

text \<open>The loop of \<open>buildContext\<close> over the remaining passages, with the \<open>context\<close>
  and \<open>currentLength\<close> it has so far. \<open>continue\<close> goes on with the state unchanged,
  \<open>break\<close> returns the context, and reading \<open>meta.title\<close> of an absent metadata
  throws.\<close>

fun buildContext_loop :: "int \<Rightarrow> passage list \<Rightarrow> string \<Rightarrow> int \<Rightarrow> error + string" where
  "buildContext_loop maxLength [] context currentLength = Inr context"
| "buildContext_loop maxLength ((doc, meta, distance) # rest) context currentLength =
     (if too_far distance then buildContext_loop maxLength rest context currentLength
      else case meta of
        None \<Rightarrow> Inl TypeError
      | Some m \<Rightarrow>
          if currentLength + int (length (docContext m doc)) > maxLength then Inr context
          else buildContext_loop maxLength rest (context @ docContext m doc)
                 (currentLength + int (length (docContext m doc))))"

definition buildContext :: "search_results \<Rightarrow> int \<Rightarrow> error + string" where
  "buildContext searchResults maxLength =
     (case buildContext_loop maxLength (passages searchResults) [] 0 of
        Inl e \<Rightarrow> Inl e
      | Inr context \<Rightarrow> Inr (trim context))"

subsection \<open>extractSources\<close>

text \<open>The loop over the lines, with \<open>currentSource\<close> and the \<open>sources\<close> pushed so
  far.\<close>

fun extractSources_loop :: "string list \<Rightarrow> source_fields \<Rightarrow> source_fields list \<Rightarrow> source_fields list" where
  "extractSources_loop [] currentSource sources = sources"
| "extractSources_loop (line # rest) currentSource sources =
     (if startsWith line ''Title: '' then
        extractSources_loop rest (currentSource\<lparr>title := Some (replace line ''Title: '' [])\<rparr>) sources
      else if startsWith line ''Source: '' then
        extractSources_loop rest (currentSource\<lparr>source := Some (replace line ''Source: '' [])\<rparr>) sources
      else if startsWith line ''URL: '' then
        (let currentSource = currentSource\<lparr>url := Some (replace line ''URL: '' [])\<rparr>
         in extractSources_loop rest \<lparr>title = None, source = None, url = None\<rparr>
              (if truthy (title currentSource) \<and> truthy (source currentSource)
               then sources @ [currentSource] else sources))
      else extractSources_loop rest currentSource sources)"

definition extractSources :: "string \<Rightarrow> source_fields list" where
  "extractSources context =
     extractSources_loop (split context NL) \<lparr>title = None, source = None, url = None\<rparr> []"

subsection \<open>External collaborators and module state\<close>

text \<open>
  The embedding model, the vector collection and the hosted language model are outside
  the repository: each is a function the environment provides, \<open>None\<close> where the call
  throws. \<open>md5_hex\<close> is \<open>crypto.createHash('md5').update(query).digest('hex')\<close>;
  \<open>TOP_K\<close> and \<open>MAX_CONTEXT_LENGTH\<close> are read from the process environment when the
  module loads.
\<close>

record 'u llm_response =
  response_text :: string
  usageMetadata :: "'u option"

record 'u env =
  md5_hex :: "string \<Rightarrow> string"
  TOP_K :: int
  MAX_CONTEXT_LENGTH :: int
  pipeline :: "(string \<Rightarrow> real list option) option"
  chroma_collection :: "(real list \<Rightarrow> int \<Rightarrow> search_results option) option"
  generateContent :: "string \<Rightarrow> 'u llm_response option"

text \<open>Every use of a collaborator is logged, in order.\<close>

datatype call =
    PipelineLoad
  | Embed string
  | CollectionGet
  | CollectionQuery "real list" int
  | Generate string

text \<open>The module's variables \<open>embedder\<close> and \<open>chromaClient\<close>, the cache service it
  requires, and the log of calls.\<close>

record 'm world =
  redisService :: "'m RedisService"
  embedder :: "(string \<Rightarrow> real list option) option"
  chromaClient :: bool
  calls :: "call list"

definition logged :: "call \<Rightarrow> 'm world \<Rightarrow> 'm world" where
  "logged c w = w\<lparr>calls := calls w @ [c]\<rparr>"

definition generate_calls :: "'m world \<Rightarrow> call list" where
  "generate_calls w = filter (\<lambda>c. case c of Generate p \<Rightarrow> True | _ \<Rightarrow> False) (calls w)"

subsection \<open>Query cache (redis.service.js)\<close>

text \<open>Both swallow every error of the client.\<close>

definition cacheQuery :: "'m RedisService \<Rightarrow> string \<Rightarrow> search_results \<Rightarrow> int \<Rightarrow> 'm RedisService" where
  "cacheQuery s queryHash results ttl =
     (if \<not> isConnected s then s
      else case client_setEx_query (client s) queryHash ttl results of
             Inl e \<Rightarrow> s
           | Inr c \<Rightarrow> s\<lparr>client := c\<rparr>)"

definition getCachedQuery :: "'m RedisService \<Rightarrow> string \<Rightarrow> search_results option" where
  "getCachedQuery s queryHash =
     (if \<not> isConnected s then None
      else case client_get_query (client s) queryHash of
             Inl e \<Rightarrow> None
           | Inr None \<Rightarrow> None
           | Inr (Some cached) \<Rightarrow> Some cached)"

subsection \<open>searchChroma\<close>

definition loadEmbedder ::
  "'u env \<Rightarrow> 'm world \<Rightarrow> (string \<Rightarrow> real list option) option \<times> 'm world" where
  "loadEmbedder e w =
     (case embedder w of
        Some f \<Rightarrow> (Some f, w)
      | None \<Rightarrow>
          (case pipeline e of
             None \<Rightarrow> (None, logged PipelineLoad w)
           | Some f \<Rightarrow> (Some f, (logged PipelineLoad w)\<lparr>embedder := Some f\<rparr>)))"

definition getCollection ::
  "'u env \<Rightarrow> 'm world \<Rightarrow> (real list \<Rightarrow> int \<Rightarrow> search_results option) option \<times> 'm world" where
  "getCollection e w = (chroma_collection e, (logged CollectionGet w)\<lparr>chromaClient := True\<rparr>)"

text \<open>Whatever is thrown inside is caught and replaced by
  \<open>Error('Failed to search knowledge base')\<close>.\<close>

definition searchChroma ::
  "'u env \<Rightarrow> 'm world \<Rightarrow> string \<Rightarrow> (error + search_results) \<times> 'm world" where
  "searchChroma e w query =
     (let queryHash = md5_hex e query
      in case getCachedQuery (redisService w) queryHash of
           Some cached \<Rightarrow> (Inr cached, w)
         | None \<Rightarrow>
             (case loadEmbedder e w of
                (None, w1) \<Rightarrow> (Inl SearchFailed, w1)
              | (Some f, w1) \<Rightarrow>
                  (case f query of
                     None \<Rightarrow> (Inl SearchFailed, logged (Embed query) w1)
                   | Some queryEmbedding \<Rightarrow>
                       (case getCollection e (logged (Embed query) w1) of
                          (None, w2) \<Rightarrow> (Inl SearchFailed, w2)
                        | (Some collection, w2) \<Rightarrow>
                            (case collection queryEmbedding (TOP_K e) of
                               None \<Rightarrow>
                                 (Inl SearchFailed, logged (CollectionQuery queryEmbedding (TOP_K e)) w2)
                             | Some results \<Rightarrow>
                                 (let w3 = logged (CollectionQuery queryEmbedding (TOP_K e)) w2
                                  in (Inr results,
                                      w3\<lparr>redisService :=
                                           cacheQuery (redisService w3) queryHash results 3600\<rparr>)))))))"

subsection \<open>generateResponse and processQuery\<close>

record 'u answer =
  answer_content :: string
  sources :: "source_fields list"
  tokensUsed :: "'u option"

definition conversationContext :: "turn list \<Rightarrow> string" where
  "conversationContext conversationHistory =
     (if length conversationHistory > 0 then
        [NL, NL] @ ''Previous conversation:'' @ [NL] @
        join (map (\<lambda>msg. (if role msg = ''user'' then ''User'' else ''Assistant'')
                          @ '': '' @ content msg)
                (slice_from (- 3) conversationHistory)) [NL]
      else [])"

definition prompt :: "string \<Rightarrow> string \<Rightarrow> turn list \<Rightarrow> string" where
  "prompt query context conversationHistory =
     ''You are a helpful news assistant. Answer the user's question using ONLY the provided news context. Be accurate, concise, and cite sources when possible.''
     @ [NL, NL] @ ''News Context:'' @ [NL] @ context
     @ [NL] @ conversationContext conversationHistory
     @ [NL, NL] @ ''User Question: '' @ query
     @ [NL, NL] @ ''Instructions:''
     @ [NL] @ ''- Only use information from the provided context''
     @ [NL] @ ''- If the context doesn't contain relevant information, say so clearly''
     @ [NL] @ ''- Cite sources (title/source) when referencing specific articles''
     @ [NL] @ ''- Be conversational but informative''
     @ [NL] @ ''- Keep responses focused and relevant''"

text \<open>A throw of the model call is caught and replaced by
  \<open>Error('Failed to generate response')\<close>.\<close>

definition generateResponse ::
  "'u env \<Rightarrow> 'm world \<Rightarrow> string \<Rightarrow> string \<Rightarrow> turn list \<Rightarrow> (error + 'u answer) \<times> 'm world" where
  "generateResponse e w query context conversationHistory =
     (let p = prompt query context conversationHistory
      in case generateContent e p of
           None \<Rightarrow> (Inl GenerationFailed, logged (Generate p) w)
         | Some response \<Rightarrow>
             (Inr \<lparr>answer_content = response_text response,
                   sources = extractSources context,
                   tokensUsed = usageMetadata response\<rparr>,
              logged (Generate p) w))"

definition nothing_found :: string where
  "nothing_found = ''I couldn't find any relevant information in the news database to answer your question. Please try rephrasing your query or ask about different topics.''"

definition not_closely_related :: string where
  "not_closely_related = ''I found some potentially relevant articles, but they don't seem closely related to your question. Could you try asking about something more specific?''"

text \<open>\<open>processQuery\<close> rethrows what it catches. \<open>buildContext\<close> is called with its
  default budget.\<close>

definition processQuery ::
  "'u env \<Rightarrow> 'm world \<Rightarrow> string \<Rightarrow> turn list \<Rightarrow> (error + 'u answer) \<times> 'm world" where
  "processQuery e w query conversationHistory =
     (case searchChroma e w query of
        (Inl err, w1) \<Rightarrow> (Inl err, w1)
      | (Inr searchResults, w1) \<Rightarrow>
          if first_or_empty (documents searchResults) = [] then
            (Inr \<lparr>answer_content = nothing_found, sources = [], tokensUsed = None\<rparr>, w1)
          else
            (case buildContext searchResults (MAX_CONTEXT_LENGTH e) of
               Inl err \<Rightarrow> (Inl err, w1)
             | Inr context \<Rightarrow>
                 if context = [] then
                   (Inr \<lparr>answer_content = not_closely_related, sources = [], tokensUsed = None\<rparr>, w1)
                 else generateResponse e w1 query context conversationHistory))"

section \<open>Specification vocabulary\<close>

text \<open>The passages the loop does not skip, in ranked order.\<close>

definition kept :: "passage list \<Rightarrow> passage list" where
  "kept ps = filter (\<lambda>(doc, meta, distance). \<not> too_far distance) ps"

text \<open>The block of a passage that has metadata.\<close>

definition formatted :: "passage \<Rightarrow> string" where
  "formatted p = (case p of (doc, meta, distance) \<Rightarrow>
      (case meta of None \<Rightarrow> [] | Some m \<Rightarrow> docContext m doc))"

text \<open>How many blocks the loop appends before it stops.\<close>

fun taken :: "int \<Rightarrow> passage list \<Rightarrow> int \<Rightarrow> nat" where
  "taken maxLength [] currentLength = 0"
| "taken maxLength ((doc, meta, distance) # rest) currentLength =
     (if too_far distance then taken maxLength rest currentLength
      else case meta of
        None \<Rightarrow> 0
      | Some m \<Rightarrow>
          if currentLength + int (length (docContext m doc)) > maxLength then 0
          else Suc (taken maxLength rest (currentLength + int (length (docContext m doc)))))"

text \<open>The citation a block stands for: the three fields as the block prints them.\<close>

definition citation :: "passage \<Rightarrow> source_fields" where
  "citation p = (case p of (doc, meta, distance) \<Rightarrow>
      (case meta of
         None \<Rightarrow> \<lparr>title = None, source = None, url = None\<rparr>
       | Some m \<Rightarrow> \<lparr>title = Some (or_default (title m) ''Unknown''),
                    source = Some (or_default (source m) ''Unknown''),
                    url = Some (or_default (url m) ''N/A'')\<rparr>))"

text \<open>A passage whose block reads back unambiguously: no line break inside the printed
  title, source or url, and no line of the document after its first begins with
  \<open>URL: \<close>.\<close>

definition plain :: "passage \<Rightarrow> bool" where
  "plain p = (case p of (doc, meta, distance) \<Rightarrow>
      (case meta of
         None \<Rightarrow> True
       | Some m \<Rightarrow> NL \<notin> set (or_default (title m) ''Unknown'')
                 \<and> NL \<notin> set (or_default (source m) ''Unknown'')
                 \<and> NL \<notin> set (or_default (url m) ''N/A''))
      \<and> list_all (\<lambda>line. \<not> startsWith line ''URL: '') (tl (split doc NL)))"

text \<open>The lines of one block.\<close>

definition block_lines :: "passage \<Rightarrow> string list" where
  "block_lines p = (case p of (doc, meta, distance) \<Rightarrow>
      (case meta of None \<Rightarrow> [] | Some m \<Rightarrow>
        [''Title: '' @ or_default (title m) ''Unknown'',
         ''Source: '' @ or_default (source m) ''Unknown'',
         ''URL: '' @ or_default (url m) ''N/A'',
         ''Content: '' @ hd (split doc NL)] @ tl (split doc NL) @ [''---'']))"

text \<open>What \<open>currentSource\<close> holds comes from the lines read since it was last reset,
  none of which is a \<open>URL: \<close> line.\<close>

definition tracks :: "string list \<Rightarrow> source_fields \<Rightarrow> bool" where
  "tracks seen cur =
     ((\<forall>t. title cur = Some t \<longrightarrow>
          (\<exists>l \<in> set seen. startsWith l ''Title: '' \<and> t = replace l ''Title: '' []))
    \<and> (\<forall>t. source cur = Some t \<longrightarrow>
          (\<exists>l \<in> set seen. startsWith l ''Source: '' \<and> t = replace l ''Source: '' []))
    \<and> (\<forall>l \<in> set seen. \<not> startsWith l ''URL: ''))"

text \<open>An entry pushed at a \<open>URL: \<close> line, after a \<open>Title: \<close> line and a \<open>Source: \<close>
  line with no \<open>URL: \<close> line in between.\<close>

definition emitted_at :: "source_fields \<Rightarrow> string list \<Rightarrow> bool" where
  "emitted_at e ls =
     (\<exists>pre mid ul post tl sl.
        ls = pre @ mid @ [ul] @ post
      \<and> tl \<in> set mid \<and> startsWith tl ''Title: ''
      \<and> sl \<in> set mid \<and> startsWith sl ''Source: ''
      \<and> (\<forall>l \<in> set mid. \<not> startsWith l ''URL: '')
      \<and> startsWith ul ''URL: ''
      \<and> title e = Some (replace tl ''Title: '' []) \<and> replace tl ''Title: '' [] \<noteq> []
      \<and> source e = Some (replace sl ''Source: '' []) \<and> replace sl ''Source: '' [] \<noteq> []
      \<and> url e = Some (replace ul ''URL: '' []))"

section \<open>Sample values\<close>

definition up_service :: "unit RedisService" where
  "up_service = \<lparr>client = \<lparr>alive = True, sessions = Map.empty, queries = Map.empty\<rparr>,
                  isConnected = True\<rparr>"

definition down_service :: "unit RedisService" where
  "down_service = \<lparr>client = \<lparr>alive = False, sessions = Map.empty, queries = Map.empty\<rparr>,
                    isConnected = False\<rparr>"

definition stale_service :: "unit RedisService" where
  "stale_service = \<lparr>client = \<lparr>alive = False, sessions = Map.empty, queries = Map.empty\<rparr>,
                     isConnected = True\<rparr>"

definition hello :: "unit message" where
  "hello = \<lparr>role = ''user'', content = ''hello'', metadata = (), msg_id = ''m1'',
            timestamp = None\<rparr>"



definition one_message_service :: "unit RedisService" where
  "one_message_service =
     \<lparr>client = \<lparr>alive = True,
                 sessions = [''s1'' \<mapsto> (86400, [hello\<lparr>timestamp := Some ''t1''\<rparr>])],
                 queries = Map.empty\<rparr>,
      isConnected = True\<rparr>"

definition meta_a :: source_fields where
  "meta_a = \<lparr>title = Some ''A'', source = Some ''S'', url = Some ''u''\<rparr>"

definition meta_b :: source_fields where
  "meta_b = \<lparr>title = Some ''B'', source = None, url = Some []\<rparr>"

text \<open>Three passages, the second one too far away.\<close>

definition three_passages :: search_results where
  "three_passages =
     \<lparr>documents = Some [[''x'', ''y'', ''z'']],
      metadatas = Some [[Some meta_a, Some meta_a, Some meta_b]],
      distances = Some [[Some 0.2, Some 0.9, Some 0.5]]\<rparr>"

text \<open>One passage whose text carries lines that look like a block's own.\<close>

definition echoing_passage :: search_results where
  "echoing_passage =
     \<lparr>documents = Some [[''x'' @ [NL] @ ''Title: T'' @ [NL] @ ''Source: Z'' @ [NL] @ ''URL: v'']],
      metadatas = Some [[Some meta_a]],
      distances = Some [[Some 0.2]]\<rparr>"

definition no_passages :: search_results where
  "no_passages = \<lparr>documents = Some [[]], metadatas = Some [[]], distances = Some [[]]\<rparr>"

definition far_passage :: search_results where
  "far_passage =
     \<lparr>documents = Some [[''x'']], metadatas = Some [[Some meta_a]],
      distances = Some [[Some 0.9]]\<rparr>"

definition sample_env :: "search_results \<Rightarrow> unit env" where
  "sample_env found =
     \<lparr>md5_hex = (\<lambda>q. ''h''), TOP_K = 5, MAX_CONTEXT_LENGTH = 4000,
      pipeline = Some (\<lambda>q. Some [1]),
      chroma_collection = Some (\<lambda>emb n. Some found),
      generateContent = (\<lambda>p. Some \<lparr>response_text = ''ok'', usageMetadata = None\<rparr>)\<rparr>"

definition fresh_world :: "unit world" where
  "fresh_world = \<lparr>redisService = down_service, embedder = None, chromaClient = False,
                   calls = []\<rparr>"

definition cached_world :: "unit world" where
  "cached_world =
     \<lparr>redisService =
        \<lparr>client = \<lparr>alive = True, sessions = Map.empty,
                   queries = [''h'' \<mapsto> (3600, far_passage)]\<rparr>,
         isConnected = True\<rparr>,
      embedder = None, chromaClient = False, calls = []\<rparr>"

section \<open>The session log\<close>












text \<open>
  C8. \<open>addToSessionHistory\<close> does not fail when the service is not connected: it returns
  the empty list and writes nothing. It fails only when the service counts as connected
  and the client rejects the write; the client's error is rethrown and nothing is
  written. When the connection is up, the session key is overwritten with the trimmed
  log and the expiry, whatever it held, and writing the same value again changes
  nothing.
\<close>

theorem addToSessionHistory_write:
  "(\<not> isConnected s \<longrightarrow> addToSessionHistory ttl s sessionId message now = (Inr [], s))
 \<and> (isConnected s \<and> \<not> alive (client s) \<longrightarrow>
       addToSessionHistory ttl s sessionId message now = (Inl ClientError, s))
 \<and> (isConnected s \<and> alive (client s) \<longrightarrow>
       (let trimmed = slice_from (- 50)
                        (stored_log s sessionId @ [message\<lparr>timestamp := Some now\<rparr>]);
            written = (client s)\<lparr>sessions := (sessions (client s))(sessionId \<mapsto> (ttl, trimmed))\<rparr>
        in addToSessionHistory ttl s sessionId message now = (Inr trimmed, s\<lparr>client := written\<rparr>)
         \<and> client_setEx_session written sessionId ttl trimmed = Inr written))"
  by (auto simp: addToSessionHistory_def getSessionHistory_def client_get_session_def
      client_setEx_session_def stored_log_def Let_def split: option.splits)

theorem addToSessionHistory_write_witness:
  "addToSessionHistory 86400 down_service ''s1'' hello ''t1'' = (Inr [], down_service)
 \<and> addToSessionHistory 86400 stale_service ''s1'' hello ''t1'' = (Inl ClientError, stale_service)
 \<and> addToSessionHistory 86400 up_service ''s1'' hello ''t1''
     = (Inr [hello\<lparr>timestamp := Some ''t1''\<rparr>], one_message_service)"
  using addToSessionHistory_write [of down_service 86400 "''s1''" hello "''t1''"]
    addToSessionHistory_write [of stale_service 86400 "''s1''" hello "''t1''"]
    addToSessionHistory_write [of up_service 86400 "''s1''" hello "''t1''"]
  by (simp add: down_service_def stale_service_def up_service_def one_message_service_def
      stored_log_def slice_from_def Let_def)

theorem addToSessionHistory_down_counterexample:
  "\<not> isConnected down_service
 \<and> addToSessionHistory 86400 down_service ''s1'' hello ''t1'' = (Inr [], down_service)"
  by (simp add: addToSessionHistory_def down_service_def)

section \<open>The context slice for the prompt\<close>

lemma getContextForRAG_last:
  assumes "sessionId \<noteq> []" and "0 < maxMessages"
  shows "getContextForRAG s sessionId maxMessages
     = Inr (map (\<lambda>msg. \<lparr>role = role msg, content = content msg\<rparr>)
         (drop (length (getSessionHistory s sessionId) - nat maxMessages)
            (getSessionHistory s sessionId)))"
  using assms
  by (auto simp: getContextForRAG_def getHistory_def slice_from_def Let_def max_def
      nat_diff_distrib')

text \<open>
  C7. Asked for the last 0 messages of a session that stores one message,
  \<open>getContextForRAG\<close> returns that message: \<open>slice(-0)\<close> is \<open>slice(0)\<close>, the whole
  log. For every positive count it returns the last that many, as
  \<open>getContextForRAG_last\<close> shows.
\<close>

theorem getContextForRAG_zero:
  "getContextForRAG one_message_service ''s1'' 0 = Inr [\<lparr>role = ''user'', content = ''hello''\<rparr>]"
  by (simp add: getContextForRAG_def getHistory_def getSessionHistory_def
      client_get_session_def slice_from_def one_message_service_def hello_def)

section \<open>The context builder\<close>

lemma taken_le: "taken maxLength ps cur \<le> length (kept ps)"
  by (induction maxLength ps cur rule: taken.induct) (auto simp: kept_def split: option.splits)

lemma loop_taken:
  "buildContext_loop maxLength ps ctx cur = Inr c \<Longrightarrow>
   c = ctx @ concat (map formatted (take (taken maxLength ps cur) (kept ps)))"
  by (induction maxLength ps ctx cur rule: buildContext_loop.induct)
     (auto simp: kept_def formatted_def split: option.splits if_splits)

lemma loop_meta:
  "buildContext_loop maxLength ps ctx cur = Inr c \<Longrightarrow>
   p \<in> set (take (taken maxLength ps cur) (kept ps)) \<Longrightarrow> fst (snd p) \<noteq> None"
  by (induction maxLength ps ctx cur rule: buildContext_loop.induct)
     (auto simp: kept_def split: option.splits if_splits)

lemma loop_fits:
  "buildContext_loop maxLength ps ctx cur = Inr c \<Longrightarrow> cur \<le> maxLength \<Longrightarrow>
   cur + int (length (concat (map formatted (take (taken maxLength ps cur) (kept ps)))))
     \<le> maxLength"
  by (induction maxLength ps ctx cur rule: buildContext_loop.induct)
     (auto simp: kept_def formatted_def split: option.splits if_splits)

lemma loop_stops:
  "buildContext_loop maxLength ps ctx cur = Inr c \<Longrightarrow>
   taken maxLength ps cur < length (kept ps) \<Longrightarrow>
   maxLength < cur + int (length (concat (map formatted
                  (take (Suc (taken maxLength ps cur)) (kept ps)))))"
  by (induction maxLength ps ctx cur rule: buildContext_loop.induct)
     (auto simp: kept_def formatted_def split: option.splits if_splits)

lemma loop_error:
  "buildContext_loop maxLength ps ctx cur = Inl e \<Longrightarrow>
   e = TypeError \<and> (\<exists>doc distance. (doc, None, distance) \<in> set ps \<and> \<not> too_far distance)"
  by (induction maxLength ps ctx cur rule: buildContext_loop.induct)
     (auto split: option.splits if_splits)

lemma loop_kept:
  "buildContext_loop maxLength (kept ps) ctx cur = buildContext_loop maxLength ps ctx cur"
  by (induction maxLength ps ctx cur rule: buildContext_loop.induct)
     (auto simp: kept_def split: option.splits)

lemma length_trim: "length (trim s) \<le> length s"
proof -
  have "length (trim s) \<le> length (dropWhile is_space s)"
    unfolding trim_def
    using length_dropWhile_le [of is_space "rev (dropWhile is_space s)"] by simp
  also have "\<dots> \<le> length s" by (simp add: length_dropWhile_le)
  finally show ?thesis .
qed

lemma trim_last: "trim s \<noteq> [] \<Longrightarrow> \<not> is_space (last (trim s))"
proof -
  assume a: "trim s \<noteq> []"
  let ?r = "dropWhile is_space (rev (dropWhile is_space s))"
  have r: "?r \<noteq> []" using a by (simp add: trim_def)
  then have "\<not> is_space (hd ?r)" by (rule hd_dropWhile)
  moreover have "last (trim s) = hd ?r" using r by (simp add: trim_def last_rev)
  ultimately show ?thesis by simp
qed

text \<open>
  C3. For a budget \<open>maxLength\<close> that is not negative, \<open>buildContext\<close> either throws a
  \<open>TypeError\<close>, at a passage it does not skip that has no metadata, or returns a text of
  at most \<open>maxLength\<close> characters. The text is the trimmed concatenation of the first
  \<open>k\<close> whole blocks of the passages not skipped, in order: those \<open>k\<close> blocks fit the
  budget, and when a further block exists, adding it would exceed the budget. The text
  does not end in white space.
\<close>

theorem buildContext_within_budget:
  assumes "0 \<le> maxLength"
  shows "case buildContext searchResults maxLength of
           Inl e \<Rightarrow> e = TypeError
             \<and> (\<exists>doc distance. (doc, None, distance) \<in> set (passages searchResults)
                  \<and> \<not> too_far distance)
         | Inr context \<Rightarrow>
             int (length context) \<le> maxLength
           \<and> (\<exists>k \<le> length (kept (passages searchResults)).
                 context = trim (concat (map formatted (take k (kept (passages searchResults)))))
               \<and> int (length (concat (map formatted (take k (kept (passages searchResults))))))
                   \<le> maxLength
               \<and> (k < length (kept (passages searchResults)) \<longrightarrow>
                    maxLength < int (length (concat (map formatted
                                  (take (Suc k) (kept (passages searchResults))))))))
           \<and> (context \<noteq> [] \<longrightarrow> \<not> is_space (last context))"
proof (cases "buildContext_loop maxLength (passages searchResults) [] 0")
  case (Inl e)
  then show ?thesis using loop_error [OF Inl] by (simp add: buildContext_def)
next
  case (Inr raw)
  let ?ps = "passages searchResults"
  let ?k = "taken maxLength ?ps 0"
  let ?blocks = "concat (map formatted (take ?k (kept ?ps)))"
  have raw: "raw = ?blocks" using loop_taken [OF Inr] by simp
  have fits: "int (length ?blocks) \<le> maxLength" using loop_fits [OF Inr assms] by simp
  have stops: "?k < length (kept ?ps) \<Longrightarrow>
      maxLength < int (length (concat (map formatted (take (Suc ?k) (kept ?ps)))))"
    using loop_stops [OF Inr] by simp
  have res: "buildContext searchResults maxLength = Inr (trim ?blocks)"
    using Inr raw by (simp add: buildContext_def)
  have len: "int (length (trim ?blocks)) \<le> maxLength"
    using fits length_trim [of ?blocks] by linarith
  have "\<exists>k \<le> length (kept ?ps).
          trim ?blocks = trim (concat (map formatted (take k (kept ?ps))))
        \<and> int (length (concat (map formatted (take k (kept ?ps))))) \<le> maxLength
        \<and> (k < length (kept ?ps) \<longrightarrow>
             maxLength < int (length (concat (map formatted (take (Suc k) (kept ?ps))))))"
    using taken_le [of maxLength ?ps 0] fits stops by blast
  then show ?thesis using res len trim_last [of ?blocks] by simp
qed

theorem buildContext_within_budget_witness:
  "(0::int) \<le> 60
 \<and> buildContext three_passages 60
     = Inr (''Title: A'' @ [NL] @ ''Source: S'' @ [NL] @ ''URL: u'' @ [NL] @ ''Content: x''
            @ [NL] @ ''---'')
 \<and> int (length (''Title: A'' @ [NL] @ ''Source: S'' @ [NL] @ ''URL: u'' @ [NL] @ ''Content: x''
            @ [NL] @ ''---'')) \<le> 60"
proof -
  have b: "(0::int) \<le> 60" by simp
  have r: "buildContext three_passages 60
     = Inr (''Title: A'' @ [NL] @ ''Source: S'' @ [NL] @ ''URL: u'' @ [NL] @ ''Content: x''
            @ [NL] @ ''---'')"
    by (simp add: buildContext_def passages_def three_passages_def first_or_empty_def
        elem_at_def too_far_def docContext_def or_default_def meta_a_def meta_b_def trim_def
        is_space_def)
  from buildContext_within_budget [OF b, of three_passages] show ?thesis
    unfolding r by simp
qed

text \<open>
  C4. The result of \<open>buildContext\<close> is the result of its loop run on the passages whose
  distance does not exceed 0.8 only: a passage over the threshold, wherever it stands in
  the ranked list, adds no block and uses none of the budget (and its metadata is never
  read).
\<close>

theorem buildContext_ignores_far_passages:
  "buildContext searchResults maxLength
     = (case buildContext_loop maxLength (kept (passages searchResults)) [] 0 of
          Inl e \<Rightarrow> Inl e
        | Inr context \<Rightarrow> Inr (trim context))
 \<and> kept (passages searchResults)
     = filter (\<lambda>(doc, meta, distance). case distance of None \<Rightarrow> True | Some d \<Rightarrow> \<not> d > 0.8)
         (passages searchResults)"
proof -
  have a: "buildContext searchResults maxLength
     = (case buildContext_loop maxLength (kept (passages searchResults)) [] 0 of
          Inl e \<Rightarrow> Inl e
        | Inr context \<Rightarrow> Inr (trim context))"
    by (simp add: buildContext_def loop_kept)
  have b: "kept (passages searchResults)
     = filter (\<lambda>(doc, meta, distance). case distance of None \<Rightarrow> True | Some d \<Rightarrow> \<not> d > 0.8)
         (passages searchResults)"
    unfolding kept_def too_far_def
    by (rule filter_cong) (auto split: option.splits)
  show ?thesis by (rule conjI [OF a b])
qed

theorem buildContext_ignores_far_passages_witness:
  "kept (passages three_passages) = [(''x'', Some meta_a, Some 0.2), (''z'', Some meta_b, Some 0.5)]
 \<and> buildContext three_passages 4000
     = Inr (''Title: A'' @ [NL] @ ''Source: S'' @ [NL] @ ''URL: u'' @ [NL] @ ''Content: x''
            @ [NL] @ ''---'' @ [NL]
            @ ''Title: B'' @ [NL] @ ''Source: Unknown'' @ [NL] @ ''URL: N/A'' @ [NL]
            @ ''Content: z'' @ [NL] @ ''---'')"
proof -
  have k: "kept (passages three_passages)
      = [(''x'', Some meta_a, Some 0.2), (''z'', Some meta_b, Some 0.5)]"
    by (simp add: kept_def passages_def three_passages_def first_or_empty_def elem_at_def
        too_far_def)
  from buildContext_ignores_far_passages [of three_passages 4000] show ?thesis
    unfolding k
    by (simp add: too_far_def docContext_def or_default_def meta_a_def meta_b_def trim_def
        is_space_def)
qed

section \<open>Lines of a text\<close>

lemma split_nonempty: "split s sep \<noteq> []"
  by (induction s) (auto split: list.splits)

lemma split_append: "split (a @ sep # b) sep = split a sep @ split b sep"
  by (induction a) (auto simp: split_nonempty split: list.splits)

lemma split_single: "sep \<notin> set s \<Longrightarrow> split s sep = [s]"
  by (induction s) auto

lemma split_prefix:
  "sep \<notin> set x \<Longrightarrow> split (x @ y) sep = (x @ hd (split y sep)) # tl (split y sep)"
  by (induction x) (auto simp: split_nonempty split: list.splits)

section \<open>Reading citations back\<close>

lemma startsWith_hd: "startsWith line (c # p) \<Longrightarrow> hd line = c"
  by (cases line) (simp_all add: startsWith_def)

lemma not_url_if_title: "startsWith l ''Title: '' \<Longrightarrow> \<not> startsWith l ''URL: ''"
  using startsWith_hd [of l "CHR ''T''"] startsWith_hd [of l "CHR ''U''"] by fastforce

lemma not_url_if_source: "startsWith l ''Source: '' \<Longrightarrow> \<not> startsWith l ''URL: ''"
  using startsWith_hd [of l "CHR ''S''"] startsWith_hd [of l "CHR ''U''"] by fastforce

lemma tracks_title:
  "tracks seen cur \<Longrightarrow> startsWith line ''Title: '' \<Longrightarrow>
   tracks (seen @ [line]) (cur\<lparr>title := Some (replace line ''Title: '' [])\<rparr>)"
  unfolding tracks_def using not_url_if_title by auto

lemma tracks_source:
  "tracks seen cur \<Longrightarrow> startsWith line ''Source: '' \<Longrightarrow>
   tracks (seen @ [line]) (cur\<lparr>source := Some (replace line ''Source: '' [])\<rparr>)"
  unfolding tracks_def using not_url_if_source by auto

lemma tracks_other:
  "tracks seen cur \<Longrightarrow> \<not> startsWith line ''URL: '' \<Longrightarrow> tracks (seen @ [line]) cur"
  unfolding tracks_def by auto

lemma tracks_empty: "tracks [] \<lparr>title = None, source = None, url = None\<rparr>"
  by (simp add: tracks_def)

lemma tracks_emit:
  assumes "tracks seen cur" "startsWith line ''URL: ''"
    "truthy (title cur)" "truthy (source cur)"
  shows "emitted_at (cur\<lparr>url := Some (replace line ''URL: '' [])\<rparr>) (before @ seen @ line # rest)"
proof -
  from assms(3) obtain t where t: "title cur = Some t" "t \<noteq> []"
    by (auto simp: truthy_def split: option.splits)
  from assms(4) obtain s where s: "source cur = Some s" "s \<noteq> []"
    by (auto simp: truthy_def split: option.splits)
  from assms(1) t obtain tl where
    tl: "tl \<in> set seen" "startsWith tl ''Title: ''" "t = replace tl ''Title: '' []"
    unfolding tracks_def by blast
  from assms(1) s obtain sl where
    sl: "sl \<in> set seen" "startsWith sl ''Source: ''" "s = replace sl ''Source: '' []"
    unfolding tracks_def by blast
  have nu: "\<forall>l \<in> set seen. \<not> startsWith l ''URL: ''"
    using assms(1) unfolding tracks_def by blast
  show ?thesis
    unfolding emitted_at_def
    apply (rule exI [of _ before], rule exI [of _ seen], rule exI [of _ line],
        rule exI [of _ rest], rule exI [of _ tl], rule exI [of _ sl])
    using t s tl sl nu assms(2) by simp
qed

lemma loop_emitted:
  "e \<in> set (extractSources_loop ls cur acc) \<Longrightarrow> tracks seen cur \<Longrightarrow>
   e \<in> set acc \<or> emitted_at e (before @ seen @ ls)"
proof (induction ls arbitrary: cur acc seen before)
  case Nil
  then show ?case by simp
next
  case (Cons line rest)
  show ?case
  proof (cases "startsWith line ''Title: ''")
    case True
    with Cons.prems(1)
    have "e \<in> set (extractSources_loop rest (cur\<lparr>title := Some (replace line ''Title: '' [])\<rparr>) acc)"
      by simp
    from Cons.IH [OF this tracks_title [OF Cons.prems(2) True], of before]
    show ?thesis by simp
  next
    case nt: False
    show ?thesis
    proof (cases "startsWith line ''Source: ''")
      case True
      with nt Cons.prems(1)
      have "e \<in> set (extractSources_loop rest
                      (cur\<lparr>source := Some (replace line ''Source: '' [])\<rparr>) acc)"
        by simp
      from Cons.IH [OF this tracks_source [OF Cons.prems(2) True], of before]
      show ?thesis by simp
    next
      case ns: False
      show ?thesis
      proof (cases "startsWith line ''URL: ''")
        case False
        with nt ns Cons.prems(1) have "e \<in> set (extractSources_loop rest cur acc)" by simp
        from Cons.IH [OF this tracks_other [OF Cons.prems(2) False], of before]
        show ?thesis by simp
      next
        case True
        let ?c = "cur\<lparr>url := Some (replace line ''URL: '' [])\<rparr>"
        let ?acc = "if truthy (title ?c) \<and> truthy (source ?c) then acc @ [?c] else acc"
        from True nt ns Cons.prems(1)
        have "e \<in> set (extractSources_loop rest \<lparr>title = None, source = None, url = None\<rparr> ?acc)"
          by (simp add: Let_def)
        from Cons.IH [OF this tracks_empty, of "before @ seen @ [line]"]
        have "e \<in> set ?acc \<or> emitted_at e (before @ seen @ line # rest)" by simp
        moreover have "e \<in> set ?acc \<Longrightarrow> e \<in> set acc \<or> emitted_at e (before @ seen @ line # rest)"
          using tracks_emit [OF Cons.prems(2) True, of before rest]
          by (auto split: if_splits)
        ultimately show ?thesis by blast
      qed
    qed
  qed
qed

text \<open>
  C10. Every entry \<open>extractSources\<close> returns has its three fields set, the title and the
  source to non-empty strings. It was pushed at a line that starts with \<open>URL: \<close>, and
  since the previous \<open>URL: \<close> line (so since the previous entry) a line starting with
  \<open>Title: \<close> and a line starting with \<open>Source: \<close> were read; the fields are those three
  lines without their labels.
\<close>

theorem extractSources_entries_complete:
  assumes "e \<in> set (extractSources context)"
  shows "\<exists>pre mid ul post tl sl.
           split context NL = pre @ mid @ [ul] @ post
         \<and> tl \<in> set mid \<and> startsWith tl ''Title: ''
         \<and> sl \<in> set mid \<and> startsWith sl ''Source: ''
         \<and> (\<forall>l \<in> set mid. \<not> startsWith l ''URL: '')
         \<and> startsWith ul ''URL: ''
         \<and> title e = Some (replace tl ''Title: '' []) \<and> replace tl ''Title: '' [] \<noteq> []
         \<and> source e = Some (replace sl ''Source: '' []) \<and> replace sl ''Source: '' [] \<noteq> []
         \<and> url e = Some (replace ul ''URL: '' [])"
proof -
  have "emitted_at e (split context NL)"
    using assms
      loop_emitted [of e "split context NL" "\<lparr>title = None, source = None, url = None\<rparr>"
        "[]" "[]" "[]"]
    by (simp add: extractSources_def tracks_empty)
  then show ?thesis unfolding emitted_at_def .
qed

theorem extractSources_entries_complete_witness:
  "meta_a \<in> set (extractSources (''Title: A'' @ [NL] @ ''Source: S'' @ [NL] @ ''URL: u''))
 \<and> (\<exists>t s u. title meta_a = Some t \<and> source meta_a = Some s \<and> url meta_a = Some u)"
proof -
  have m: "meta_a \<in> set (extractSources (''Title: A'' @ [NL] @ ''Source: S'' @ [NL] @ ''URL: u''))"
    by (simp add: extractSources_def startsWith_def truthy_def meta_a_def)
  from extractSources_entries_complete [OF m] obtain tl sl ul where
    "title meta_a = Some (replace tl ''Title: '' [])"
    "source meta_a = Some (replace sl ''Source: '' [])"
    "url meta_a = Some (replace ul ''URL: '' [])"
    by (elim exE conjE)
  then show ?thesis using m by (intro conjI exI)
qed

section \<open>Citations of a built context\<close>

lemma split_block:
  assumes "NL \<notin> set a" "NL \<notin> set b" "NL \<notin> set c" "NL \<notin> set d" "NL \<notin> set e"
  shows "split (a @ NL # b @ NL # c @ NL # (d @ doc) @ NL # e) NL
           = [a, b, c, d @ hd (split doc NL)] @ tl (split doc NL) @ [e]"
    and "split (a @ NL # b @ NL # c @ NL # (d @ doc) @ NL # e @ NL # r) NL
           = [a, b, c, d @ hd (split doc NL)] @ tl (split doc NL) @ [e] @ split r NL"
proof -
  have d: "split (d @ doc) NL = (d @ hd (split doc NL)) # tl (split doc NL)"
    using assms(4) by (rule split_prefix)
  show "split (a @ NL # b @ NL # c @ NL # (d @ doc) @ NL # e) NL
           = [a, b, c, d @ hd (split doc NL)] @ tl (split doc NL) @ [e]"
    unfolding split_append d using assms by (simp add: split_single)
  show "split (a @ NL # b @ NL # c @ NL # (d @ doc) @ NL # e @ NL # r) NL
           = [a, b, c, d @ hd (split doc NL)] @ tl (split doc NL) @ [e] @ split r NL"
    unfolding split_append d using assms by (simp add: split_single)
qed

lemma docContext_shape:
  "docContext m doc = NL # (''Title: '' @ or_default (title m) ''Unknown'')
     @ NL # (''Source: '' @ or_default (source m) ''Unknown'')
     @ NL # (''URL: '' @ or_default (url m) ''N/A'')
     @ NL # (''Content: '' @ doc) @ NL # ''---''"
  by (simp add: docContext_def)

lemma split_formatted:
  assumes "plain p" "fst (snd p) \<noteq> None"
  shows "split (tl (formatted p)) NL = block_lines p"
    and "split (tl (formatted p) @ NL # r) NL = block_lines p @ split r NL"
proof -
  obtain doc m distance where p: "p = (doc, Some m, distance)"
    using assms(2) by (cases p) auto
  have n: "NL \<notin> set (''Title: '' @ or_default (title m) ''Unknown'')"
    "NL \<notin> set (''Source: '' @ or_default (source m) ''Unknown'')"
    "NL \<notin> set (''URL: '' @ or_default (url m) ''N/A'')"
    "NL \<notin> set ''Content: ''" "NL \<notin> set ''---''"
    using assms(1) by (simp_all add: plain_def p)
  have t: "tl (formatted p) = (''Title: '' @ or_default (title m) ''Unknown'')
     @ NL # (''Source: '' @ or_default (source m) ''Unknown'')
     @ NL # (''URL: '' @ or_default (url m) ''N/A'')
     @ NL # (''Content: '' @ doc) @ NL # ''---''"
    by (simp add: formatted_def p docContext_shape)
  show "split (tl (formatted p)) NL = block_lines p"
    unfolding t using split_block(1) [OF n] by (simp add: block_lines_def p)
  have t2: "tl (formatted p) @ NL # r = (''Title: '' @ or_default (title m) ''Unknown'')
     @ NL # (''Source: '' @ or_default (source m) ''Unknown'')
     @ NL # (''URL: '' @ or_default (url m) ''N/A'')
     @ NL # (''Content: '' @ doc) @ NL # ''---'' @ NL # r"
    unfolding t by simp
  show "split (tl (formatted p) @ NL # r) NL = block_lines p @ split r NL"
    unfolding t2 using split_block(2) [OF n] by (simp add: block_lines_def p)
qed

lemma formatted_form:
  "fst (snd p) \<noteq> None \<Longrightarrow> \<exists>xs. formatted p = NL # CHR ''T'' # xs @ ''---''"
  by (cases p) (auto simp: formatted_def docContext_def)

lemma blocks_form:
  "ps \<noteq> [] \<Longrightarrow> \<forall>p \<in> set ps. fst (snd p) \<noteq> None \<Longrightarrow>
   \<exists>xs. concat (map formatted ps) = NL # CHR ''T'' # xs @ ''---''"
proof (induction ps)
  case Nil
  then show ?case by simp
next
  case (Cons p ps)
  from Cons.prems obtain xs where xs: "formatted p = NL # CHR ''T'' # xs @ ''---''"
    using formatted_form [of p] by auto
  show ?case
  proof (cases "ps = []")
    case True
    then show ?thesis using xs by simp
  next
    case False
    with Cons obtain ys where ys: "concat (map formatted ps) = NL # CHR ''T'' # ys @ ''---''"
      by auto
    have "concat (map formatted (p # ps))
            = NL # CHR ''T'' # (xs @ ''---'' @ NL # CHR ''T'' # ys) @ ''---''"
      using xs ys by simp
    then show ?thesis by blast
  qed
qed

lemma trim_core: "\<not> is_space a \<Longrightarrow> trim (NL # a # xs @ ''---'') = a # xs @ ''---''"
  by (simp add: trim_def is_space_def)

lemma trim_blocks:
  assumes "ps \<noteq> []" "\<forall>p \<in> set ps. fst (snd p) \<noteq> None"
  shows "trim (concat (map formatted ps)) = tl (concat (map formatted ps))"
proof -
  from blocks_form [OF assms] obtain xs where
    xs: "concat (map formatted ps) = NL # CHR ''T'' # xs @ ''---''" by blast
  have "\<not> is_space CHR ''T''" by (simp add: is_space_def)
  from trim_core [OF this, of xs] show ?thesis unfolding xs by simp
qed

lemma split_blocks:
  "ps \<noteq> [] \<Longrightarrow> \<forall>p \<in> set ps. plain p \<and> fst (snd p) \<noteq> None \<Longrightarrow>
   split (tl (concat (map formatted ps))) NL = concat (map block_lines ps)"
proof (induction ps)
  case Nil
  then show ?case by simp
next
  case (Cons p ps)
  have p: "plain p" "fst (snd p) \<noteq> None" using Cons.prems by auto
  from formatted_form [OF p(2)] obtain xs where
    xs: "formatted p = NL # CHR ''T'' # xs @ ''---''" by blast
  show ?case
  proof (cases "ps = []")
    case True
    then show ?thesis using split_formatted(1) [OF p] by simp
  next
    case False
    from Cons.prems have all: "\<forall>p \<in> set ps. fst (snd p) \<noteq> None" by auto
    from blocks_form [OF False all] obtain ys where
      ys: "concat (map formatted ps) = NL # CHR ''T'' # ys @ ''---''" by blast
    have "tl (concat (map formatted (p # ps)))
            = tl (formatted p) @ NL # tl (concat (map formatted ps))"
      using xs ys by simp
    then have "split (tl (concat (map formatted (p # ps)))) NL
            = block_lines p @ split (tl (concat (map formatted ps))) NL"
      using split_formatted(2) [OF p] by simp
    then show ?thesis using Cons.IH [OF False] Cons.prems by simp
  qed
qed

lemma skip_lines:
  "list_all (\<lambda>l. \<not> startsWith l ''URL: '') ls \<Longrightarrow>
   \<exists>cur'. extractSources_loop (ls @ rest) cur acc = extractSources_loop rest cur' acc"
  by (induction ls arbitrary: cur) auto

lemma or_default_nonempty: "d \<noteq> [] \<Longrightarrow> or_default v d \<noteq> []"
  by (auto simp: or_default_def split: option.splits)

lemma all_updated:
  "(cur::source_fields)\<lparr>title := a, source := b, url := c\<rparr> = \<lparr>title = a, source = b, url = c\<rparr>"
  by (cases cur) simp

lemma block_extract:
  assumes "plain p" "fst (snd p) \<noteq> None"
  shows "\<exists>cur'. extractSources_loop (block_lines p @ rest) cur acc
           = extractSources_loop rest cur' (acc @ [citation p])"
proof -
  obtain doc m distance where p: "p = (doc, Some m, distance)"
    using assms(2) by (cases p) auto
  let ?t = "or_default (title m) ''Unknown''"
  let ?s = "or_default (source m) ''Unknown''"
  let ?tail = "(''Content: '' @ hd (split doc NL)) # tl (split doc NL) @ [''---'']"
  have ne: "?t \<noteq> []" "?s \<noteq> []" by (simp_all add: or_default_nonempty)
  have "list_all (\<lambda>l. \<not> startsWith l ''URL: '') ?tail"
    using assms(1) by (simp add: plain_def p startsWith_def)
  from skip_lines [OF this, of rest "\<lparr>title = None, source = None, url = None\<rparr>"
      "acc @ [citation p]"]
  obtain cur' where c: "extractSources_loop (?tail @ rest)
        \<lparr>title = None, source = None, url = None\<rparr> (acc @ [citation p])
      = extractSources_loop rest cur' (acc @ [citation p])" by blast
  have "extractSources_loop (block_lines p @ rest) cur acc
      = extractSources_loop (?tail @ rest) \<lparr>title = None, source = None, url = None\<rparr>
          (acc @ [citation p])"
    using ne by (simp add: block_lines_def p startsWith_def truthy_def citation_def all_updated)
  with c show ?thesis by metis
qed

lemma blocks_extract:
  "\<forall>p \<in> set ps. plain p \<and> fst (snd p) \<noteq> None \<Longrightarrow>
   extractSources_loop (concat (map block_lines ps)) cur acc = acc @ map citation ps"
proof (induction ps arbitrary: cur acc)
  case Nil
  then show ?case by simp
next
  case (Cons p ps)
  then have p: "plain p" "fst (snd p) \<noteq> None" by auto
  from block_extract [OF p, of "concat (map block_lines ps)" cur acc] obtain cur' where
    "extractSources_loop (block_lines p @ concat (map block_lines ps)) cur acc
       = extractSources_loop (concat (map block_lines ps)) cur' (acc @ [citation p])" by blast
  then show ?case using Cons.IH [of cur' "acc @ [citation p]"] Cons.prems by simp
qed

lemma extract_blocks:
  assumes "\<forall>p \<in> set ps. plain p \<and> fst (snd p) \<noteq> None"
  shows "extractSources (trim (concat (map formatted ps))) = map citation ps"
proof (cases "ps = []")
  case True
  then show ?thesis by (simp add: extractSources_def trim_def startsWith_def)
next
  case False
  have "trim (concat (map formatted ps)) = tl (concat (map formatted ps))"
    using trim_blocks [OF False] assms by blast
  then show ?thesis
    using split_blocks [OF False assms] blocks_extract [OF assms]
    by (simp add: extractSources_def)
qed

text \<open>
  C2. Let every passage that \<open>buildContext\<close> does not skip print a title, a source and a
  url without line breaks, and let no line of its text after the first begin with
  \<open>URL: \<close>. When \<open>buildContext\<close> returns a context, that context is made of the blocks
  of the first \<open>k\<close> passages not skipped, each of which has metadata, and
  \<open>extractSources\<close> of it returns exactly one entry for each of these passages, in the
  same order, with the title, source and url as the block prints them (the metadata's, or
  \<open>Unknown\<close>, \<open>Unknown\<close> and \<open>N/A\<close> where the metadata's is missing or empty).
\<close>

theorem extractSources_of_buildContext:
  assumes "buildContext searchResults maxLength = Inr context"
    and "list_all plain (kept (passages searchResults))"
  shows "\<exists>k \<le> length (kept (passages searchResults)).
           context = trim (concat (map formatted (take k (kept (passages searchResults)))))
         \<and> list_all (\<lambda>(doc, meta, distance). meta \<noteq> None)
             (take k (kept (passages searchResults)))
         \<and> extractSources context = map citation (take k (kept (passages searchResults)))"
proof -
  let ?ps = "passages searchResults"
  let ?k = "taken maxLength ?ps 0"
  let ?inc = "take ?k (kept ?ps)"
  from assms(1) obtain raw where
    raw: "buildContext_loop maxLength ?ps [] 0 = Inr raw" and c: "context = trim raw"
    by (auto simp: buildContext_def split: sum.splits)
  have r: "raw = concat (map formatted ?inc)" using loop_taken [OF raw] by simp
  have m: "\<forall>p \<in> set ?inc. fst (snd p) \<noteq> None" using loop_meta [OF raw] by blast
  have pl: "\<forall>p \<in> set ?inc. plain p"
    using assms(2) by (auto simp: list_all_iff dest: in_set_takeD)
  have "extractSources context = map citation ?inc"
    unfolding c r using extract_blocks [of ?inc] m pl by blast
  moreover have "list_all (\<lambda>(doc, meta, distance). meta \<noteq> None) ?inc"
    using m by (auto simp: list_all_iff)
  ultimately show ?thesis using taken_le [of maxLength ?ps 0] c r by blast
qed

theorem extractSources_of_buildContext_witness:
  "buildContext three_passages 4000
     = Inr (''Title: A'' @ [NL] @ ''Source: S'' @ [NL] @ ''URL: u'' @ [NL] @ ''Content: x''
            @ [NL] @ ''---'' @ [NL]
            @ ''Title: B'' @ [NL] @ ''Source: Unknown'' @ [NL] @ ''URL: N/A'' @ [NL]
            @ ''Content: z'' @ [NL] @ ''---'')
 \<and> list_all plain (kept (passages three_passages))
 \<and> (\<exists>k \<le> length (kept (passages three_passages)).
       extractSources (''Title: A'' @ [NL] @ ''Source: S'' @ [NL] @ ''URL: u'' @ [NL]
            @ ''Content: x'' @ [NL] @ ''---'' @ [NL]
            @ ''Title: B'' @ [NL] @ ''Source: Unknown'' @ [NL] @ ''URL: N/A'' @ [NL]
            @ ''Content: z'' @ [NL] @ ''---'')
         = map citation (take k (kept (passages three_passages))))
 \<and> extractSources (''Title: A'' @ [NL] @ ''Source: S'' @ [NL] @ ''URL: u'' @ [NL]
            @ ''Content: x'' @ [NL] @ ''---'' @ [NL]
            @ ''Title: B'' @ [NL] @ ''Source: Unknown'' @ [NL] @ ''URL: N/A'' @ [NL]
            @ ''Content: z'' @ [NL] @ ''---'')
     = [\<lparr>title = Some ''A'', source = Some ''S'', url = Some ''u''\<rparr>,
        \<lparr>title = Some ''B'', source = Some ''Unknown'', url = Some ''N/A''\<rparr>]"
proof -
  have k: "kept (passages three_passages)
      = [(''x'', Some meta_a, Some 0.2), (''z'', Some meta_b, Some 0.5)]"
    by (simp add: kept_def passages_def three_passages_def first_or_empty_def elem_at_def
        too_far_def)
  have r: "buildContext three_passages 4000
     = Inr (''Title: A'' @ [NL] @ ''Source: S'' @ [NL] @ ''URL: u'' @ [NL] @ ''Content: x''
            @ [NL] @ ''---'' @ [NL]
            @ ''Title: B'' @ [NL] @ ''Source: Unknown'' @ [NL] @ ''URL: N/A'' @ [NL]
            @ ''Content: z'' @ [NL] @ ''---'')"
    by (simp add: buildContext_def passages_def three_passages_def first_or_empty_def
        elem_at_def too_far_def docContext_def or_default_def meta_a_def meta_b_def trim_def
        is_space_def)
  have p: "list_all plain (kept (passages three_passages))"
    unfolding k by (simp add: plain_def or_default_def meta_a_def meta_b_def)
  have e: "extractSources (''Title: A'' @ [NL] @ ''Source: S'' @ [NL] @ ''URL: u'' @ [NL]
            @ ''Content: x'' @ [NL] @ ''---'' @ [NL]
            @ ''Title: B'' @ [NL] @ ''Source: Unknown'' @ [NL] @ ''URL: N/A'' @ [NL]
            @ ''Content: z'' @ [NL] @ ''---'')
     = [\<lparr>title = Some ''A'', source = Some ''S'', url = Some ''u''\<rparr>,
        \<lparr>title = Some ''B'', source = Some ''Unknown'', url = Some ''N/A''\<rparr>]"
    by (simp add: extractSources_def startsWith_def truthy_def)
  from extractSources_of_buildContext [OF r p] have
    "\<exists>k \<le> length (kept (passages three_passages)).
       extractSources (''Title: A'' @ [NL] @ ''Source: S'' @ [NL] @ ''URL: u'' @ [NL]
            @ ''Content: x'' @ [NL] @ ''---'' @ [NL]
            @ ''Title: B'' @ [NL] @ ''Source: Unknown'' @ [NL] @ ''URL: N/A'' @ [NL]
            @ ''Content: z'' @ [NL] @ ''---'')
         = map citation (take k (kept (passages three_passages)))"
    by (elim exE conjE) (intro exI conjI)
  then show ?thesis using r p e by (intro conjI)
qed

theorem extractSources_of_buildContext_counterexample:
  "kept (passages echoing_passage)
     = [(''x'' @ [NL] @ ''Title: T'' @ [NL] @ ''Source: Z'' @ [NL] @ ''URL: v'',
         Some meta_a, Some 0.2)]
 \<and> buildContext echoing_passage 4000
     = Inr (''Title: A'' @ [NL] @ ''Source: S'' @ [NL] @ ''URL: u'' @ [NL] @ ''Content: x''
            @ [NL] @ ''Title: T'' @ [NL] @ ''Source: Z'' @ [NL] @ ''URL: v'' @ [NL] @ ''---'')
 \<and> extractSources (''Title: A'' @ [NL] @ ''Source: S'' @ [NL] @ ''URL: u'' @ [NL]
            @ ''Content: x'' @ [NL] @ ''Title: T'' @ [NL] @ ''Source: Z'' @ [NL] @ ''URL: v''
            @ [NL] @ ''---'')
     = [\<lparr>title = Some ''A'', source = Some ''S'', url = Some ''u''\<rparr>,
        \<lparr>title = Some ''T'', source = Some ''Z'', url = Some ''v''\<rparr>]"
proof -
  have k: "kept (passages echoing_passage)
     = [(''x'' @ [NL] @ ''Title: T'' @ [NL] @ ''Source: Z'' @ [NL] @ ''URL: v'',
         Some meta_a, Some 0.2)]"
    by (simp add: kept_def passages_def echoing_passage_def first_or_empty_def elem_at_def
        too_far_def)
  have r: "buildContext echoing_passage 4000
     = Inr (''Title: A'' @ [NL] @ ''Source: S'' @ [NL] @ ''URL: u'' @ [NL] @ ''Content: x''
            @ [NL] @ ''Title: T'' @ [NL] @ ''Source: Z'' @ [NL] @ ''URL: v'' @ [NL] @ ''---'')"
    by (simp add: buildContext_def passages_def echoing_passage_def first_or_empty_def
        elem_at_def too_far_def docContext_def or_default_def meta_a_def trim_def is_space_def)
  have e: "extractSources (''Title: A'' @ [NL] @ ''Source: S'' @ [NL] @ ''URL: u'' @ [NL]
            @ ''Content: x'' @ [NL] @ ''Title: T'' @ [NL] @ ''Source: Z'' @ [NL] @ ''URL: v''
            @ [NL] @ ''---'')
     = [\<lparr>title = Some ''A'', source = Some ''S'', url = Some ''u''\<rparr>,
        \<lparr>title = Some ''T'', source = Some ''Z'', url = Some ''v''\<rparr>]"
    by (simp add: extractSources_def startsWith_def truthy_def)
  show ?thesis using k r e by (intro conjI)
qed

section \<open>Orchestration\<close>

lemma loadEmbedder_generate_calls:
  "generate_calls (snd (loadEmbedder e w)) = generate_calls w"
  by (auto simp: loadEmbedder_def generate_calls_def logged_def split: option.splits)

lemma searchChroma_generate_calls:
  "generate_calls (snd (searchChroma e w query)) = generate_calls w"
proof -
  have l: "\<And>f w1. loadEmbedder e w = (f, w1) \<Longrightarrow> generate_calls w1 = generate_calls w"
    using loadEmbedder_generate_calls [of e w] by simp
  show ?thesis
    by (auto simp: searchChroma_def getCollection_def Let_def generate_calls_def logged_def
        dest!: l split: option.splits prod.splits)
qed

text \<open>
  C5. When the retrieval step of \<open>processQuery\<close> returns a result with zero documents,
  \<open>processQuery\<close> returns the fixed nothing-found message with no sources and no token
  usage, and the language model has been called no more often than before.
\<close>

theorem processQuery_nothing_found:
  assumes "searchChroma e w query = (Inr searchResults, w1)"
    and "first_or_empty (documents searchResults) = []"
  shows "processQuery e w query conversationHistory
           = (Inr \<lparr>answer_content = nothing_found, sources = [], tokensUsed = None\<rparr>, w1)
       \<and> generate_calls w1 = generate_calls w"
  using assms searchChroma_generate_calls [of e w query]
  by (simp add: processQuery_def)

theorem processQuery_nothing_found_witness:
  "searchChroma (sample_env no_passages) fresh_world ''q''
     = (Inr no_passages,
        \<lparr>redisService = down_service, embedder = Some (\<lambda>q. Some [1]), chromaClient = True,
         calls = [PipelineLoad, Embed ''q'', CollectionGet, CollectionQuery [1] 5]\<rparr>)
 \<and> first_or_empty (documents no_passages) = []
 \<and> fst (processQuery (sample_env no_passages) fresh_world ''q'' [])
     = Inr \<lparr>answer_content = nothing_found, sources = [], tokensUsed = None\<rparr>"
proof -
  have s: "searchChroma (sample_env no_passages) fresh_world ''q''
     = (Inr no_passages,
        \<lparr>redisService = down_service, embedder = Some (\<lambda>q. Some [1]), chromaClient = True,
         calls = [PipelineLoad, Embed ''q'', CollectionGet, CollectionQuery [1] 5]\<rparr>)"
    by (simp add: searchChroma_def getCachedQuery_def loadEmbedder_def getCollection_def
        cacheQuery_def logged_def sample_env_def fresh_world_def down_service_def Let_def)
  have d: "first_or_empty (documents no_passages) = []"
    by (simp add: first_or_empty_def no_passages_def)
  from processQuery_nothing_found [OF s d, of "[]"] show ?thesis using s d by simp
qed

text \<open>
  C6. When the retrieval step returns documents and \<open>buildContext\<close> makes the empty
  string of them, \<open>processQuery\<close> returns the fixed not-closely-related message with no
  sources and no token usage, and the language model has been called no more often than
  before.
\<close>

theorem processQuery_not_closely_related:
  assumes "searchChroma e w query = (Inr searchResults, w1)"
    and "first_or_empty (documents searchResults) \<noteq> []"
    and "buildContext searchResults (MAX_CONTEXT_LENGTH e) = Inr []"
  shows "processQuery e w query conversationHistory
           = (Inr \<lparr>answer_content = not_closely_related, sources = [], tokensUsed = None\<rparr>, w1)
       \<and> generate_calls w1 = generate_calls w"
  using assms searchChroma_generate_calls [of e w query]
  by (simp add: processQuery_def)

theorem processQuery_not_closely_related_witness:
  "searchChroma (sample_env far_passage) fresh_world ''q''
     = (Inr far_passage,
        \<lparr>redisService = down_service, embedder = Some (\<lambda>q. Some [1]), chromaClient = True,
         calls = [PipelineLoad, Embed ''q'', CollectionGet, CollectionQuery [1] 5]\<rparr>)
 \<and> first_or_empty (documents far_passage) \<noteq> []
 \<and> buildContext far_passage (MAX_CONTEXT_LENGTH (sample_env far_passage)) = Inr []
 \<and> fst (processQuery (sample_env far_passage) fresh_world ''q'' [])
     = Inr \<lparr>answer_content = not_closely_related, sources = [], tokensUsed = None\<rparr>"
proof -
  have s: "searchChroma (sample_env far_passage) fresh_world ''q''
     = (Inr far_passage,
        \<lparr>redisService = down_service, embedder = Some (\<lambda>q. Some [1]), chromaClient = True,
         calls = [PipelineLoad, Embed ''q'', CollectionGet, CollectionQuery [1] 5]\<rparr>)"
    by (simp add: searchChroma_def getCachedQuery_def loadEmbedder_def getCollection_def
        cacheQuery_def logged_def sample_env_def fresh_world_def down_service_def Let_def)
  have d: "first_or_empty (documents far_passage) \<noteq> []"
    by (simp add: first_or_empty_def far_passage_def)
  have b: "buildContext far_passage (MAX_CONTEXT_LENGTH (sample_env far_passage)) = Inr []"
    by (simp add: buildContext_def passages_def far_passage_def first_or_empty_def
        elem_at_def too_far_def trim_def sample_env_def)
  from processQuery_not_closely_related [OF s d b, of "[]"] show ?thesis using s d b by simp
qed

lemma getCachedQuery_Some_iff:
  "getCachedQuery s queryHash = Some cached
     \<longleftrightarrow> isConnected s \<and> alive (client s)
         \<and> (\<exists>ttl. queries (client s) queryHash = Some (ttl, cached))"
  by (auto simp: getCachedQuery_def client_get_query_def split: option.splits)

text \<open>
  C9. When the query cache answers for the hash of the query (the service is connected,
  the client answers and the key is there), \<open>searchChroma\<close> returns the cached result as
  it is and leaves everything as it was: the embedding model is not loaded or called, the
  vector collection is not queried, and nothing is written.
\<close>

theorem searchChroma_cache_hit:
  assumes "getCachedQuery (redisService w) (md5_hex e query) = Some cached"
  shows "searchChroma e w query = (Inr cached, w)
       \<and> calls (snd (searchChroma e w query)) = calls w"
  using assms by (simp add: searchChroma_def)

theorem searchChroma_cache_hit_witness:
  "getCachedQuery (redisService cached_world) (md5_hex (sample_env no_passages) ''q'')
     = Some far_passage
 \<and> searchChroma (sample_env no_passages) cached_world ''q'' = (Inr far_passage, cached_world)
 \<and> calls (snd (searchChroma (sample_env no_passages) cached_world ''q'')) = []"
proof -
  have h: "getCachedQuery (redisService cached_world) (md5_hex (sample_env no_passages) ''q'')
     = Some far_passage"
    by (simp add: getCachedQuery_def client_get_query_def cached_world_def sample_env_def)
  have c: "calls cached_world = []" by (simp add: cached_world_def)
  from searchChroma_cache_hit [OF h] show ?thesis using h c by simp
qed

end
